theory Spec2Isabelle
  imports Complex_Main "HOL-Library.Word" "HOL-Library.Log_Nat"
begin

unbundle bit_operations_syntax

section \<open>The PCA9685 driver (src/src/pca9685.cpp)\<close>

text \<open>
  The driver is a flat set of C functions over the pigpio I2C primitives. C \<open>int\<close>
  values are modelled as \<^typ>\<open>int\<close>: every value the driver computes from a channel
  index in \<open>[0, 16]\<close> and from register bytes stays far inside the 32-bit range, and
  \<open>AND\<close>/\<open>OR\<close> on \<^typ>\<open>int\<close> are the two's complement operations of C.
\<close>

subsection \<open>Register map (the \<open>#define\<close>s of the source)\<close>

definition PCA9685_MODE1 :: int where "PCA9685_MODE1 = 0x0"
definition PCA9685_PRESCALE :: int where "PCA9685_PRESCALE = 0xFE"
definition LED0_ON_L :: int where "LED0_ON_L = 0x6"
definition LEDALL_ON_L :: int where "LEDALL_ON_L = 0xFA"
definition PIN_ALL :: int where "PIN_ALL = 16"

text \<open>\<open>baseReg\<close>: \<^verbatim>\<open>return (pin >= PIN_ALL ? LEDALL_ON_L : LED0_ON_L + 4 * pin);\<close>\<close>

definition baseReg :: "int \<Rightarrow> int" where
  "baseReg pin = (if pin \<ge> PIN_ALL then LEDALL_ON_L else LED0_ON_L + 4 * pin)"

subsection \<open>The bus: chip registers and the transactions seen on the wire\<close>

text \<open>
  One bus transaction, or the delay the driver inserts between two of them. The first
  argument is the pigpio handle, the second the register address, the third the value
  written.
\<close>

datatype event =
    ReadByte int int
  | WriteByte int int int
  | ReadWord int int
  | WriteWord int int int
  | Usleep int

text \<open>
  The state outside the driver: for every handle the byte registers of the chip behind
  it, and the list of transactions issued so far (oldest first). The driver keeps no
  state of its own.
\<close>

record bus =
  regs :: "int \<Rightarrow> int \<Rightarrow> 8 word"
  trace :: "event list"

text \<open>
  Modelled from the spec: the chip itself is not part of the repository. Sections 3
  and 4.1 of the specification and the comment of \<open>pca9685PWMRead\<close> (\<open>ALL_LED pin will
  always return 0\<close>) describe the broadcast block, the four registers from
  \<open>LEDALL_ON_L\<close>: it has no storage of its own, a read of it returns 0, and a write
  to its \<open>k\<close>-th register puts the byte into the \<open>k\<close>-th register of every one of the
  sixteen channels. Every other register is a plain byte cell.
\<close>

definition all_block :: "int \<Rightarrow> bool" where
  "all_block reg = (LEDALL_ON_L \<le> reg \<and> reg \<le> LEDALL_ON_L + 3)"

definition chip_read :: "(int \<Rightarrow> 8 word) \<Rightarrow> int \<Rightarrow> 8 word" where
  "chip_read chip reg = (if all_block reg then 0 else chip reg)"

definition chip_write :: "(int \<Rightarrow> 8 word) \<Rightarrow> int \<Rightarrow> 8 word \<Rightarrow> (int \<Rightarrow> 8 word)" where
  "chip_write chip reg v =
     (if all_block reg
      then (\<lambda>a. if LED0_ON_L \<le> a \<and> a < LED0_ON_L + 4 * PIN_ALL
                      \<and> (a - LED0_ON_L) mod 4 = reg - LEDALL_ON_L
                 then v else chip a)
      else chip(reg := v))"

definition PI_BAD_PARAM :: int where "PI_BAD_PARAM = -81"

definition valid_reg :: "int \<Rightarrow> bool" where
  "valid_reg reg = (0 \<le> reg \<and> reg \<le> 0xFF)"

text \<open>
  Modelled from the spec: the four I2C primitives \<open>i2cReadByteData\<close>,
  \<open>i2cWriteByteData\<close>, \<open>i2cReadWordData\<close> and \<open>i2cWriteWordData\<close> belong to the
  pigpio library and are not part of the repository. Section 6 of the specification
  gives their contract (read-byte, write-byte, read-word, write-word on a handle and a
  register) and the register map; a 16-bit word at register \<open>r\<close> is the byte at \<open>r\<close>
  (low) and the byte at \<open>r + 1\<close> (high), which is how the chip serves word transfers
  once its auto-increment bit is set. Each byte goes through \<open>chip_read\<close> or
  \<open>chip_write\<close>, so the broadcast block behaves as sections 3 and 4.1 say. pigpio refuses a register above \<open>0xFF\<close>, a byte
  above \<open>0xFF\<close> and a word above \<open>0xFFFF\<close> with \<open>PI_BAD_PARAM\<close> (the arguments are
  \<open>unsigned\<close>, so a negative \<open>int\<close> is refused too); the transfer is then not made. Every
  handle is taken to be open and the chip to answer.
\<close>

definition i2cReadByteData :: "int \<Rightarrow> int \<Rightarrow> bus \<Rightarrow> int \<times> bus" where
  "i2cReadByteData h reg s =
     (if valid_reg reg then uint (chip_read (regs s h) reg) else PI_BAD_PARAM,
      s\<lparr>trace := trace s @ [ReadByte h reg]\<rparr>)"

definition i2cWriteByteData :: "int \<Rightarrow> int \<Rightarrow> int \<Rightarrow> bus \<Rightarrow> bus" where
  "i2cWriteByteData h reg bVal s =
     (if valid_reg reg \<and> 0 \<le> bVal \<and> bVal \<le> 0xFF
      then s\<lparr>regs := (regs s)(h := chip_write (regs s h) reg (word_of_int bVal)),
             trace := trace s @ [WriteByte h reg bVal]\<rparr>
      else s\<lparr>trace := trace s @ [WriteByte h reg bVal]\<rparr>)"

definition i2cReadWordData :: "int \<Rightarrow> int \<Rightarrow> bus \<Rightarrow> int \<times> bus" where
  "i2cReadWordData h reg s =
     (if valid_reg reg
      then uint (chip_read (regs s h) reg) + 256 * uint (chip_read (regs s h) (reg + 1))
      else PI_BAD_PARAM,
      s\<lparr>trace := trace s @ [ReadWord h reg]\<rparr>)"

definition i2cWriteWordData :: "int \<Rightarrow> int \<Rightarrow> int \<Rightarrow> bus \<Rightarrow> bus" where
  "i2cWriteWordData h reg wVal s =
     (if valid_reg reg \<and> 0 \<le> wVal \<and> wVal \<le> 0xFFFF
      then s\<lparr>regs := (regs s)(h :=
               chip_write (chip_write (regs s h) reg (word_of_int (wVal AND 0xFF)))
                 (reg + 1) (word_of_int (wVal div 256))),
             trace := trace s @ [WriteWord h reg wVal]\<rparr>
      else s\<lparr>trace := trace s @ [WriteWord h reg wVal]\<rparr>)"

text \<open>\<open>usleep\<close> only takes time; the model records that it was called.\<close>

definition usleep :: "int \<Rightarrow> bus \<Rightarrow> bus" where
  "usleep us s = s\<lparr>trace := trace s @ [Usleep us]\<rparr>"

subsection \<open>Channel operations\<close>

text \<open>
  \<open>pca9685PWMReset\<close>:
  \<^verbatim>\<open>i2cWriteWordData(fd, LEDALL_ON_L, 0x0); i2cWriteWordData(fd, LEDALL_ON_L + 2, 0x1000);\<close>
\<close>

definition pca9685PWMReset :: "int \<Rightarrow> bus \<Rightarrow> bus" where
  "pca9685PWMReset fd s =
     i2cWriteWordData fd (LEDALL_ON_L + 2) 0x1000 (i2cWriteWordData fd LEDALL_ON_L 0x0 s)"

text \<open>
  \<open>pca9685PWMWrite\<close>: both words are masked to their 12 low bits before they are
  written to \<open>reg\<close> and \<open>reg + 2\<close>.
\<close>

definition pca9685PWMWrite :: "int \<Rightarrow> int \<Rightarrow> int \<Rightarrow> int \<Rightarrow> bus \<Rightarrow> bus" where
  "pca9685PWMWrite fd pin on off s =
     (let reg = baseReg pin;
          s = i2cWriteWordData fd reg (on AND 0x0FFF) s
      in i2cWriteWordData fd (reg + 2) (off AND 0x0FFF) s)"

text \<open>
  \<open>pca9685PWMRead\<close>: the two out-pointers may each be null; \<open>want_on\<close> and
  \<open>want_off\<close> say which are not. A word that was not asked for is not read and comes
  back as \<open>None\<close>.
\<close>

definition pca9685PWMRead ::
    "int \<Rightarrow> int \<Rightarrow> bool \<Rightarrow> bool \<Rightarrow> bus \<Rightarrow> (int option \<times> int option) \<times> bus" where
  "pca9685PWMRead fd pin want_on want_off s =
     (let reg = baseReg pin;
          (on, s) = (if want_on then (let (v, s') = i2cReadWordData fd reg s in (Some v, s'))
                     else (None, s));
          (off, s) = (if want_off
                      then (let (v, s') = i2cReadWordData fd (reg + 2) s in (Some v, s'))
                      else (None, s))
      in ((on, off), s))"

text \<open>
  \<open>pca9685FullOff\<close>: read the off-high byte (\<open>baseReg(pin) + 3\<close>), set or clear bit 4,
  write it back. \<open>tf\<close> is a C truth value: anything but 0 is true.
\<close>

definition pca9685FullOff :: "int \<Rightarrow> int \<Rightarrow> int \<Rightarrow> bus \<Rightarrow> bus" where
  "pca9685FullOff fd pin tf s =
     (let reg = baseReg pin + 3;
          (state, s) = i2cReadByteData fd reg s;
          state = (if tf \<noteq> 0 then state OR 0x10 else state AND 0xEF)
      in i2cWriteByteData fd reg state s)"

text \<open>
  \<open>pca9685FullOn\<close>: the same on the on-high byte (\<open>baseReg(pin) + 1\<close>); when switching
  full-on on, it then calls \<open>pca9685FullOff(fd, pin, 0)\<close>.
\<close>

definition pca9685FullOn :: "int \<Rightarrow> int \<Rightarrow> int \<Rightarrow> bus \<Rightarrow> bus" where
  "pca9685FullOn fd pin tf s =
     (let reg = baseReg pin + 1;
          (state, s) = i2cReadByteData fd reg s;
          state = (if tf \<noteq> 0 then state OR 0x10 else state AND 0xEF);
          s = i2cWriteByteData fd reg state s
      in if tf \<noteq> 0 then pca9685FullOff fd pin 0 s else s)"

subsection \<open>Single-precision arithmetic\<close>

text \<open>
  A C \<open>float\<close> is an IEEE 754 binary32 value: a finite number (\<open>Fin\<close> of its exact
  value, with \<open>Fin 0\<close> for +0), \<open>-0\<close>, an infinity or a NaN. Every operation is
  evaluated in single precision (\<open>FLT_EVAL_METHOD\<close> 0) and rounds its exact result to
  the nearest binary32 value, ties to even.
\<close>

datatype float32 = Fin rat | NegZero | PInf | NInf | NaN

fun fval :: "float32 \<Rightarrow> rat" where
  "fval (Fin r) = r"
| "fval _ = 0"

fun is_finite :: "float32 \<Rightarrow> bool" where
  "is_finite (Fin r) = True"
| "is_finite NegZero = True"
| "is_finite _ = False"

fun sign_bit :: "float32 \<Rightarrow> bool" where
  "sign_bit (Fin r) = (r < 0)"
| "sign_bit NegZero = True"
| "sign_bit NInf = True"
| "sign_bit _ = False"

definition is_zero :: "float32 \<Rightarrow> bool" where
  "is_zero a = (is_finite a \<and> fval a = 0)"

definition signed_zero :: "bool \<Rightarrow> float32" where
  "signed_zero neg = (if neg then NegZero else Fin 0)"

definition signed_inf :: "bool \<Rightarrow> float32" where
  "signed_inf neg = (if neg then NInf else PInf)"

text \<open>
  \<open>binade x\<close> is the exponent \<open>e\<close> with \<open>2^e \<le> |x| < 2^(e+1)\<close>, computed from the bit
  lengths of numerator and denominator.
\<close>

definition binade :: "rat \<Rightarrow> int" where
  "binade x = (let (p, q) = quotient_of \<bar>x\<bar>; d = bitlen p - bitlen q
               in if 2 powi d \<le> \<bar>x\<bar> then d else d - 1)"

text \<open>The nearest integer, the even one of the two when \<open>y\<close> lies half way.\<close>

definition round_even :: "rat \<Rightarrow> int" where
  "round_even y = (let n = \<lfloor>y\<rfloor>; d = y - of_int n
                   in if d < 1 / 2 then n else if 1 / 2 < d then n + 1
                      else if even n then n else n + 1)"

text \<open>
  Rounding an exact result to binary32: 24 significant bits, so the spacing at exponent
  \<open>e\<close> is \<open>2^(e-23)\<close>; below the smallest normal exponent \<open>-126\<close> the spacing stays
  \<open>2^(-149)\<close> (subnormals); a result that rounds to \<open>2^128\<close> or beyond overflows to an
  infinity; one that rounds to zero keeps its sign.
\<close>

definition round32 :: "rat \<Rightarrow> float32" where
  "round32 x =
     (if x = 0 then Fin 0
      else let e = max (binade x) (- 126);
               q = 2 powi (e - 23);
               r = of_int (round_even (x / q)) * q
           in if 2 powi 128 \<le> \<bar>r\<bar> then signed_inf (x < 0)
              else if r = 0 then signed_zero (x < 0)
              else Fin r)"

text \<open>
  The comparisons \<open><\<close> and \<open>>\<close> of the source; both are false when an operand is a
  NaN. \<open>fle\<close> and \<open>fge\<close> are \<open>\<le>\<close> and \<open>\<ge>\<close>, used to state properties only.
\<close>

definition flt :: "float32 \<Rightarrow> float32 \<Rightarrow> bool" where
  "flt a b = (a \<noteq> NaN \<and> b \<noteq> NaN \<and>
     (if is_finite a \<and> is_finite b then fval a < fval b
      else (a = NInf \<and> b \<noteq> NInf) \<or> (b = PInf \<and> a \<noteq> PInf)))"

definition fgt :: "float32 \<Rightarrow> float32 \<Rightarrow> bool" where
  "fgt a b = flt b a"

definition fle :: "float32 \<Rightarrow> float32 \<Rightarrow> bool" where
  "fle a b = (a \<noteq> NaN \<and> b \<noteq> NaN \<and> \<not> flt b a)"

definition fge :: "float32 \<Rightarrow> float32 \<Rightarrow> bool" where
  "fge a b = fle b a"

text \<open>Multiplication, division and subtraction, with the special cases of IEEE 754.\<close>

definition fmul :: "float32 \<Rightarrow> float32 \<Rightarrow> float32" where
  "fmul a b =
     (if a = NaN \<or> b = NaN then NaN
      else if \<not> is_finite a \<or> \<not> is_finite b
        then (if is_zero a \<or> is_zero b then NaN else signed_inf (sign_bit a \<noteq> sign_bit b))
      else if fval a * fval b = 0 then signed_zero (sign_bit a \<noteq> sign_bit b)
      else round32 (fval a * fval b))"

definition fdiv :: "float32 \<Rightarrow> float32 \<Rightarrow> float32" where
  "fdiv a b =
     (if a = NaN \<or> b = NaN then NaN
      else if \<not> is_finite a
        then (if \<not> is_finite b then NaN else signed_inf (sign_bit a \<noteq> sign_bit b))
      else if \<not> is_finite b then signed_zero (sign_bit a \<noteq> sign_bit b)
      else if is_zero b
        then (if is_zero a then NaN else signed_inf (sign_bit a \<noteq> sign_bit b))
      else if is_zero a then signed_zero (sign_bit a \<noteq> sign_bit b)
      else round32 (fval a / fval b))"

definition fsub :: "float32 \<Rightarrow> float32 \<Rightarrow> float32" where
  "fsub a b =
     (if a = NaN \<or> b = NaN then NaN
      else if \<not> is_finite a then (if a = b then NaN else a)
      else if \<not> is_finite b then signed_inf (\<not> sign_bit b)
      else if fval a - fval b = 0
        then (if sign_bit a \<and> \<not> sign_bit b then NegZero else Fin 0)
      else round32 (fval a - fval b))"

text \<open>
  The cast \<open>(int) x\<close> drops the fractional part (truncation toward zero). Its behaviour is
  undefined when \<open>x\<close> is a NaN or an infinity or when the truncated value does not fit a
  32-bit \<open>int\<close>: \<open>None\<close>.
\<close>

definition trunc_toward_zero :: "rat \<Rightarrow> int" where
  "trunc_toward_zero x = (if 0 \<le> x then \<lfloor>x\<rfloor> else \<lceil>x\<rceil>)"

definition float_to_int :: "float32 \<Rightarrow> int option" where
  "float_to_int a =
     (if is_finite a
      then (let t = trunc_toward_zero (fval a)
            in if - (2 ^ 31) \<le> t \<and> t \<le> 2 ^ 31 - 1 then Some t else None)
      else None)"

subsection \<open>Setting the frequency\<close>

text \<open>
  Line 74 of the source, \<^verbatim>\<open>freq = (freq > 1000 ? 1000 : (freq < 40 ? 40 : freq));\<close>.
  The \<open>int\<close> constants are converted to \<open>float\<close> exactly.
\<close>

definition cap_freq :: "float32 \<Rightarrow> float32" where
  "cap_freq freq =
     (if fgt freq (Fin 1000) then Fin 1000 else if flt freq (Fin 40) then Fin 40 else freq)"

text \<open>
  Line 79, \<^verbatim>\<open>int prescale = (int)(25000000.0f / (4096 * freq) - 0.5f);\<close>, on the capped
  frequency.
\<close>

definition prescale_of :: "float32 \<Rightarrow> int option" where
  "prescale_of freq =
     float_to_int (fsub (fdiv (Fin 25000000) (fmul (Fin 4096) freq)) (Fin (1 / 2)))"

text \<open>
  \<open>pca9685PWMFreq\<close>: cap the frequency, compute the prescale value, read \<open>MODE1\<close> and
  derive the four bytes, then sleep, set the prescaler, wake up, wait and restart. The
  result is \<open>None\<close> only when the cast of line 79 is undefined.
\<close>

definition pca9685PWMFreq :: "int \<Rightarrow> float32 \<Rightarrow> bus \<Rightarrow> bus option" where
  "pca9685PWMFreq fd freq s =
     (let freq = cap_freq freq
      in case prescale_of freq of
           None \<Rightarrow> None
         | Some prescale \<Rightarrow>
             (let (r, s) = i2cReadByteData fd PCA9685_MODE1 s;
                  settings = r AND 0x7F;
                  sleep = settings OR 0x10;
                  wake = settings AND 0xEF;
                  restart = wake OR 0x80;
                  s = i2cWriteByteData fd PCA9685_MODE1 sleep s;
                  s = i2cWriteByteData fd PCA9685_PRESCALE prescale s;
                  s = i2cWriteByteData fd PCA9685_MODE1 wake s;
                  s = usleep 1000 s
              in Some (i2cWriteByteData fd PCA9685_MODE1 restart s)))"

text \<open>
  \<open>pca9685Setup\<close>: read \<open>MODE1\<close>, mask it with \<open>0x7F\<close>, set bit 5, write it back; call
  \<open>pca9685PWMFreq\<close> when \<open>freq > 0\<close>; return 1.
\<close>

definition pca9685Setup :: "int \<Rightarrow> float32 \<Rightarrow> bus \<Rightarrow> (int \<times> bus) option" where
  "pca9685Setup handle freq s =
     (let (r, s) = i2cReadByteData handle PCA9685_MODE1 s;
          settings = r AND 0x7F;
          autoInc = settings OR 0x20;
          s = i2cWriteByteData handle PCA9685_MODE1 autoInc s
      in if fgt freq (Fin 0)
         then (case pca9685PWMFreq handle freq s of
                 None \<Rightarrow> None
               | Some s' \<Rightarrow> Some (1, s'))
         else Some (1, s))"

subsection \<open>Observations used by the properties\<close>

text \<open>
  The override flags of a channel, as the register map gives them: bit 4 of the on-high
  byte (base + 1) is full-on, bit 4 of the off-high byte (base + 3) is full-off.
\<close>

definition full_on_flag :: "bus \<Rightarrow> int \<Rightarrow> int \<Rightarrow> bool" where
  "full_on_flag s fd pin = bit (regs s fd (baseReg pin + 1)) 4"

definition full_off_flag :: "bus \<Rightarrow> int \<Rightarrow> int \<Rightarrow> bool" where
  "full_off_flag s fd pin = bit (regs s fd (baseReg pin + 3)) 4"

text \<open>A chip whose registers are all zero, with nothing on the wire yet.\<close>

definition blank :: bus where
  "blank = \<lparr>regs = \<lambda>_ _. 0, trace = []\<rparr>"

text \<open>The same with byte \<open>v\<close> in register \<open>r\<close> of the chip behind handle \<open>h\<close>.\<close>

definition preset :: "int \<Rightarrow> int \<Rightarrow> 8 word \<Rightarrow> bus" where
  "preset h r v = \<lparr>regs = (\<lambda>_ _. 0)(h := (\<lambda>_. 0)(r := v)), trace = []\<rparr>"

text \<open>
  The bus after the first two transactions of \<open>pca9685Setup\<close> on handle \<open>h\<close>: \<open>MODE1\<close>
  has been read and written back with bit 7 cleared and bit 5 set, and nothing else
  has changed.
\<close>

definition after_mode_write :: "int \<Rightarrow> bus \<Rightarrow> bus" where
  "after_mode_write h s =
     s\<lparr>regs := (regs s)(h := (regs s h)(0 := (regs s h 0 AND 0x7F) OR 0x20)),
       trace := trace s @ [ReadByte h 0, WriteByte h 0 ((uint (regs s h 0) AND 0x7F) OR 0x20)]\<rparr>"

section \<open>Properties\<close>

subsection \<open>Register addressing\<close>

text \<open>
  C5. The channel-address helper maps every channel index \<open>N\<close> in \<open>[0, 15]\<close> to the base
  address \<open>0x06 + 4 * N\<close>, and channel index 16 to the fixed broadcast base address
  \<open>0xFA\<close>, which is not \<open>0x06 + 4 * 16\<close>; the off word of a channel is written to and
  read from base + 2.
\<close>

theorem baseReg_channels:
  "(\<forall>n. 0 \<le> n \<and> n \<le> 15 \<longrightarrow> baseReg n = 0x06 + 4 * n)
   \<and> baseReg 16 = 0xFA \<and> baseReg 16 \<noteq> 0x06 + 4 * 16
   \<and> trace (pca9685PWMWrite fd pin on off s) =
       trace s @ [WriteWord fd (baseReg pin) (on AND 0xFFF),
                WriteWord fd (baseReg pin + 2) (off AND 0xFFF)]
   \<and> trace (snd (pca9685PWMRead fd pin True True s)) =
       trace s @ [ReadWord fd (baseReg pin), ReadWord fd (baseReg pin + 2)]"
  by (simp add: baseReg_def PIN_ALL_def LED0_ON_L_def LEDALL_ON_L_def
      pca9685PWMWrite_def pca9685PWMRead_def i2cWriteWordData_def i2cReadWordData_def Let_def)

theorem baseReg_channels_witness:
  "(0::int) \<le> 7 \<and> (7::int) \<le> 15 \<and> baseReg 7 = 0x22"
  using baseReg_channels [THEN conjunct1, rule_format, of 7]
  by simp

subsection \<open>Transport and byte lemmas\<close>

lemma chip_read_plain: "\<not> all_block reg \<Longrightarrow> chip_read chip reg = chip reg"
  by (simp add: chip_read_def)

lemma chip_write_plain: "\<not> all_block reg \<Longrightarrow> chip_write chip reg v = chip(reg := v)"
  by (simp add: chip_write_def)

lemma mode_prescale_plain: "\<not> all_block 0" "\<not> all_block 0xFE"
  by (simp_all add: all_block_def LEDALL_ON_L_def)

lemma fst_i2cReadByteData:
  "fst (i2cReadByteData h reg s) =
     (if valid_reg reg then uint (chip_read (regs s h) reg) else PI_BAD_PARAM)"
  by (simp add: i2cReadByteData_def)

lemma regs_i2cReadByteData: "regs (snd (i2cReadByteData h reg s)) = regs s"
  by (simp add: i2cReadByteData_def)

lemma trace_i2cReadByteData:
  "trace (snd (i2cReadByteData h reg s)) = trace s @ [ReadByte h reg]"
  by (simp add: i2cReadByteData_def)

lemma regs_i2cWriteByteData:
  "regs (i2cWriteByteData h reg v s) =
     (if valid_reg reg \<and> 0 \<le> v \<and> v \<le> 0xFF
      then (regs s)(h := chip_write (regs s h) reg (word_of_int v)) else regs s)"
  by (simp add: i2cWriteByteData_def)

lemma trace_i2cWriteByteData:
  "trace (i2cWriteByteData h reg v s) = trace s @ [WriteByte h reg v]"
  by (simp add: i2cWriteByteData_def)

lemma fst_i2cReadWordData:
  "fst (i2cReadWordData h reg s) =
     (if valid_reg reg
      then uint (chip_read (regs s h) reg) + 256 * uint (chip_read (regs s h) (reg + 1))
      else PI_BAD_PARAM)"
  by (simp add: i2cReadWordData_def)

lemma regs_i2cReadWordData: "regs (snd (i2cReadWordData h reg s)) = regs s"
  by (simp add: i2cReadWordData_def)

lemma trace_i2cReadWordData:
  "trace (snd (i2cReadWordData h reg s)) = trace s @ [ReadWord h reg]"
  by (simp add: i2cReadWordData_def)

lemma regs_i2cWriteWordData:
  "regs (i2cWriteWordData h reg w s) =
     (if valid_reg reg \<and> 0 \<le> w \<and> w \<le> 0xFFFF
      then (regs s)(h := chip_write (chip_write (regs s h) reg (word_of_int (w AND 0xFF)))
                            (reg + 1) (word_of_int (w div 256)))
      else regs s)"
  by (simp add: i2cWriteWordData_def)

lemma trace_i2cWriteWordData:
  "trace (i2cWriteWordData h reg w s) = trace s @ [WriteWord h reg w]"
  by (simp add: i2cWriteWordData_def)

lemma mask12_range: "0 \<le> (x::int) AND 0xFFF \<and> x AND 0xFFF \<le> 0xFFF"
  by (simp add: AND_upper2')

lemma mask12_word: "0 \<le> (x::int) AND 0xFFF \<and> x AND 0xFFF \<le> 0xFFFF"
  using mask12_range [of x] by linarith

lemma word_split:
  assumes "0 \<le> w" "w \<le> 0xFFFF"
  shows "uint (word_of_int (w AND 0xFF) :: 8 word) + 256 * uint (word_of_int (w div 256) :: 8 word) = w"
proof -
  have m: "(0xFF::int) = mask 8" by (simp add: mask_eq_exp_minus_1)
  have "w AND 0xFF = w mod 256"
    unfolding m by (simp add: take_bit_eq_mask [symmetric] take_bit_eq_mod)
  then have a: "uint (word_of_int (w AND 0xFF) :: 8 word) = w mod 256"
    by (simp add: uint_word_of_int)
  have "w div 256 < 256" using assms by simp
  moreover have "0 \<le> w div 256" using assms by simp
  ultimately have b: "uint (word_of_int (w div 256) :: 8 word) = w div 256"
    by (simp add: uint_word_of_int)
  show ?thesis using a b by simp
qed

lemma baseReg_valid: "0 \<le> pin \<Longrightarrow> valid_reg (baseReg pin) \<and> valid_reg (baseReg pin + 1)
   \<and> valid_reg (baseReg pin + 2) \<and> valid_reg (baseReg pin + 3)"
  by (simp add: baseReg_def valid_reg_def PIN_ALL_def LED0_ON_L_def LEDALL_ON_L_def)

lemma baseReg_plain:
  assumes "0 \<le> pin" "pin \<le> 15"
  shows "\<not> all_block (baseReg pin)" "\<not> all_block (baseReg pin + 1)"
    "\<not> all_block (baseReg pin + 2)" "\<not> all_block (baseReg pin + 3)"
  using assms
  by (simp_all add: baseReg_def all_block_def PIN_ALL_def LED0_ON_L_def LEDALL_ON_L_def)

lemma mask12_bit12: "((x::int) AND 0xFFF) AND 0x1000 = 0"
proof -
  have "(x AND 0xFFF) AND 0x1000 = x AND (0xFFF AND 0x1000)"
    by (simp add: and.assoc)
  then show ?thesis by simp
qed


lemmas bus_simps = fst_i2cReadByteData regs_i2cReadByteData trace_i2cReadByteData
  regs_i2cWriteByteData trace_i2cWriteByteData fst_i2cReadWordData regs_i2cReadWordData
  trace_i2cReadWordData regs_i2cWriteWordData trace_i2cWriteWordData

lemma byte_or_range: "0 \<le> uint (b :: 8 word) OR 0x10 \<and> uint b OR 0x10 \<le> 0xFF"
proof -
  have "uint b OR 0x10 = uint (b OR 0x10)" by (simp add: uint_or)
  moreover have "uint (b OR 0x10) < 2 ^ 8" using uint_bounded [of "b OR 0x10"] by simp
  ultimately show ?thesis by simp
qed

lemma byte_and_range: "0 \<le> uint (b :: 8 word) AND 0xEF \<and> uint b AND 0xEF \<le> 0xFF"
proof -
  have "uint b AND 0xEF = uint (b AND 0xEF)" by (simp add: uint_and)
  moreover have "uint (b AND 0xEF) < 2 ^ 8" using uint_bounded [of "b AND 0xEF"] by simp
  ultimately show ?thesis by simp
qed

lemma byte_or_word: "(word_of_int (uint (b :: 8 word) OR 0x10) :: 8 word) = b OR 0x10"
proof -
  have "(word_of_int (uint b OR 0x10) :: 8 word) = word_of_int (uint b) OR word_of_int 0x10"
    by (simp only: word_wi_log_defs)
  then show ?thesis by simp
qed

lemma byte_and_word: "(word_of_int (uint (b :: 8 word) AND 0xEF) :: 8 word) = b AND 0xEF"
proof -
  have "(word_of_int (uint b AND 0xEF) :: 8 word) = word_of_int (uint b) AND word_of_int 0xEF"
    by (simp only: word_wi_log_defs)
  then show ?thesis by simp
qed

lemma bit_or_0x10: "bit ((b :: 8 word) OR 0x10) n = (bit b n \<or> n = 4)"
proof -
  have "(0x10 :: 8 word) = 2 ^ 4" by simp
  then show ?thesis by (simp only: bit_or_iff bit_exp_iff) auto
qed

lemma bit_and_0xEF: "bit ((b :: 8 word) AND 0xEF) n = (bit b n \<and> n \<noteq> 4)"
proof -
  have "(0xEF :: 8 word) = NOT (2 ^ 4)" by simp
  then show ?thesis by (simp only: bit_and_iff bit_not_iff bit_exp_iff) (auto dest: bit_imp_le_length)
qed

lemma regs_pca9685FullOff:
  assumes "0 \<le> pin" "pin \<le> 15"
  shows "regs (pca9685FullOff fd pin tf s) =
     (regs s)(fd := (regs s fd)(baseReg pin + 3 :=
        (if tf \<noteq> 0 then regs s fd (baseReg pin + 3) OR 0x10
         else regs s fd (baseReg pin + 3) AND 0xEF)))"
  using baseReg_valid [OF assms(1)] baseReg_plain [OF assms]
  by (simp add: pca9685FullOff_def Let_def split_beta bus_simps byte_or_range byte_and_range
      byte_or_word byte_and_word chip_read_plain chip_write_plain)

lemma regs_pca9685FullOn:
  assumes "0 \<le> pin" "pin \<le> 15"
  shows "regs (pca9685FullOn fd pin tf s) =
     (if tf \<noteq> 0
      then (regs s)(fd := (regs s fd)(baseReg pin + 1 := regs s fd (baseReg pin + 1) OR 0x10,
                                      baseReg pin + 3 := regs s fd (baseReg pin + 3) AND 0xEF))
      else (regs s)(fd := (regs s fd)(baseReg pin + 1 := regs s fd (baseReg pin + 1) AND 0xEF)))"
  using baseReg_valid [OF assms(1)] baseReg_plain [OF assms]
  by (simp add: pca9685FullOn_def Let_def split_beta bus_simps byte_or_range byte_and_range
      byte_or_word byte_and_word regs_pca9685FullOff [OF assms] chip_read_plain
      chip_write_plain)


subsection \<open>Reset\<close>

text \<open>
  C7. \<open>resetAll\<close> writes exactly two words to the broadcast block: 0 to the broadcast
  on-register \<open>0xFA\<close> and \<open>0x1000\<close> to the broadcast off-register \<open>0xFA + 2\<close>, and
  nothing else. On the chip the block broadcasts them: in every one of the sixteen
  channels the on word becomes 0 and the off word \<open>0x1000\<close>, and no other register
  changes.
\<close>

theorem pca9685PWMReset_writes:
  "trace (pca9685PWMReset fd s) = trace s @ [WriteWord fd 0xFA 0, WriteWord fd (0xFA + 2) 0x1000]
   \<and> regs (pca9685PWMReset fd s) =
       (regs s)(fd := (\<lambda>a. if 0x06 \<le> a \<and> a < 0x06 + 4 * 16
                            then (if (a - 0x06) mod 4 = 3 then 0x10 else 0)
                            else regs s fd a))"
proof -
  have "chip_write (chip_write (chip_write (chip_write (regs s fd) 0xFA 0) 0xFB 0) 0xFC 0)
          0xFD 0x10 =
        (\<lambda>a. if 0x06 \<le> a \<and> a < 0x06 + 4 * 16
              then (if (a - 0x06) mod 4 = 3 then 0x10 else 0)
              else regs s fd a)"
    by (rule ext)
      (auto simp add: chip_write_def all_block_def LEDALL_ON_L_def LED0_ON_L_def PIN_ALL_def)
  then show ?thesis
    by (simp add: pca9685PWMReset_def LEDALL_ON_L_def bus_simps valid_reg_def)
qed

subsection \<open>Writing and reading a channel\<close>

text \<open>
  C3. For every channel \<open>ch\<close> in \<open>[0, 15]\<close> and every pair of integers \<open>(on, off)\<close>,
  \<open>writeChannel(ch, on, off)\<close> followed by \<open>readChannel(ch)\<close> returns exactly
  \<open>(on & 0xFFF, off & 0xFFF)\<close>, and bit 12 (the override flag) of both words read
  back is 0.
\<close>

theorem write_read_roundtrip:
  assumes "0 \<le> ch" "ch \<le> 15"
  shows "\<exists>a b. fst (pca9685PWMRead fd ch True True (pca9685PWMWrite fd ch on off s))
                 = (Some a, Some b)
     \<and> a = on AND 0xFFF \<and> b = off AND 0xFFF \<and> a AND 0x1000 = 0 \<and> b AND 0x1000 = 0"
  using baseReg_valid [OF assms(1)] baseReg_plain [OF assms] mask12_word [of on]
    mask12_word [of off] word_split [of "on AND 0xFFF"] word_split [of "off AND 0xFFF"]
  by (simp add: pca9685PWMRead_def pca9685PWMWrite_def Let_def split_beta bus_simps mask12_bit12
      chip_read_plain chip_write_plain add.assoc)

theorem write_read_roundtrip_witness:
  "(0::int) \<le> 3 \<and> (3::int) \<le> 15
   \<and> fst (pca9685PWMRead 7 3 True True (pca9685PWMWrite 7 3 0x1234 (-1) blank))
       = (Some 0x234, Some 0xFFF)"
proof -
  have "(0x1234 :: int) AND 0xFFF = 0x234" "(-1 :: int) AND 0xFFF = 0xFFF"
    by simp_all
  then show ?thesis
    using write_read_roundtrip [of 3 7 "0x1234" "-1" blank] by auto
qed

subsection \<open>Full-on and full-off\<close>

text \<open>
  C4. For every channel (each of the sixteen, indices 0 to 15) and every prior state,
  after \<open>setFullOn(ch, true)\<close> the channel's full-on bit is set and its full-off bit is
  cleared; after \<open>setFullOn(ch, false)\<close> the full-on bit is cleared and the full-off
  bit is unchanged.
\<close>

theorem pca9685FullOn_flags:
  assumes "0 \<le> pin" "pin \<le> 15"
  shows "(tf \<noteq> 0 \<longrightarrow>
            full_on_flag (pca9685FullOn fd pin tf s) fd pin
          \<and> \<not> full_off_flag (pca9685FullOn fd pin tf s) fd pin)
       \<and> (tf = 0 \<longrightarrow>
            \<not> full_on_flag (pca9685FullOn fd pin tf s) fd pin
          \<and> full_off_flag (pca9685FullOn fd pin tf s) fd pin = full_off_flag s fd pin)"
  by (simp add: full_on_flag_def full_off_flag_def regs_pca9685FullOn [OF assms]
      bit_or_0x10 bit_and_0xEF)

theorem pca9685FullOn_flags_witness:
  "(0::int) \<le> 2 \<and> (2::int) \<le> 15 \<and> (1::int) \<noteq> 0
   \<and> full_off_flag (preset 7 (baseReg 2 + 3) 0x10) 7 2
   \<and> full_on_flag (pca9685FullOn 7 2 1 (preset 7 (baseReg 2 + 3) 0x10)) 7 2
   \<and> \<not> full_off_flag (pca9685FullOn 7 2 1 (preset 7 (baseReg 2 + 3) 0x10)) 7 2"
  using pca9685FullOn_flags [of 2 1 7 "preset 7 (baseReg 2 + 3) 0x10"]
  by (simp add: full_off_flag_def preset_def)

text \<open>
  C9. For every channel (each of the sixteen, indices 0 to 15) and either value of
  \<open>enabled\<close>, \<open>setFullOff(ch, enabled)\<close> sets or clears the full-off flag (bit 4 of the off-high byte) and changes nothing
  else: the other bits of that byte and every other register stay as they were, so the
  full-on flag is never modified.
\<close>

theorem pca9685FullOff_frame:
  assumes "0 \<le> pin" "pin \<le> 15"
  shows "full_off_flag (pca9685FullOff fd pin tf s) fd pin = (tf \<noteq> 0)
       \<and> (\<forall>n. n \<noteq> 4 \<longrightarrow> bit (regs (pca9685FullOff fd pin tf s) fd (baseReg pin + 3)) n
                          = bit (regs s fd (baseReg pin + 3)) n)
       \<and> (\<forall>h r. (h, r) \<noteq> (fd, baseReg pin + 3) \<longrightarrow>
              regs (pca9685FullOff fd pin tf s) h r = regs s h r)
       \<and> full_on_flag (pca9685FullOff fd pin tf s) fd pin = full_on_flag s fd pin"
  by (simp add: full_on_flag_def full_off_flag_def regs_pca9685FullOff [OF assms]
      bit_or_0x10 bit_and_0xEF)

theorem pca9685FullOff_frame_witness:
  "(0::int) \<le> 2 \<and> (2::int) \<le> 15
   \<and> full_on_flag (preset 7 (baseReg 2 + 1) 0x10) 7 2
   \<and> full_off_flag (pca9685FullOff 7 2 1 (preset 7 (baseReg 2 + 1) 0x10)) 7 2
   \<and> full_on_flag (pca9685FullOff 7 2 1 (preset 7 (baseReg 2 + 1) 0x10)) 7 2
   \<and> regs (pca9685FullOff 7 2 1 (preset 7 (baseReg 2 + 1) 0x10)) 7 (baseReg 2 + 1) = 0x10"
  using pca9685FullOff_frame [of 2 7 1 "preset 7 (baseReg 2 + 1) 0x10"]
  by (simp add: full_on_flag_def preset_def baseReg_def PIN_ALL_def LED0_ON_L_def)

subsection \<open>Rounding to single precision\<close>

lemma bitlen_powi:
  assumes "0 < p"
  shows "(2::rat) powi (bitlen p - 1) \<le> of_int p" "of_int p < (2::rat) powi (bitlen p)"
proof -
  have b: "1 \<le> bitlen p" using assms by (auto simp: bitlen_alt_def)
  have "(2::int) ^ nat (bitlen p - 1) \<le> p" "p < 2 ^ nat (bitlen p)"
    using bitlen_bounds [OF assms] by simp_all
  then have "(of_int ((2::int) ^ nat (bitlen p - 1)) :: rat) \<le> of_int p"
    "(of_int p :: rat) < of_int (2 ^ nat (bitlen p))"
    by (simp_all only: of_int_le_iff of_int_less_iff)
  then show "(2::rat) powi (bitlen p - 1) \<le> of_int p" "of_int p < (2::rat) powi (bitlen p)"
    using b by (simp_all add: power_int_def)
qed

lemma binade_bounds:
  assumes "x \<noteq> 0"
  shows "2 powi (binade x) \<le> \<bar>x\<bar>" "\<bar>x\<bar> < 2 powi (binade x + 1)"
proof -
  obtain p q where pq: "quotient_of \<bar>x\<bar> = (p, q)" by force
  have q: "0 < q" using quotient_of_denom_pos [OF pq] .
  have x: "\<bar>x\<bar> = of_int p / of_int q" using quotient_of_div [OF pq] .
  have "0 < \<bar>x\<bar>" using assms by simp
  then have p: "0 < p" using q x by (simp add: zero_less_divide_iff)
  define d where "d = bitlen p - bitlen q"
  have up: "\<bar>x\<bar> < 2 powi (d + 1)"
  proof -
    have "of_int p / of_int q < (2::rat) powi (bitlen p) / of_int q"
      using bitlen_powi(2) [OF p] q by (simp add: divide_strict_right_mono)
    also have "\<dots> \<le> 2 powi (bitlen p) / 2 powi (bitlen q - 1)"
      using bitlen_powi(1) [OF q] q by (intro divide_left_mono) (simp_all add: zero_less_power_int)
    also have "\<dots> = 2 powi (d + 1)"
      by (simp add: d_def power_int_diff [symmetric] algebra_simps)
    finally show ?thesis using x by simp
  qed
  have lo: "2 powi (d - 1) < \<bar>x\<bar>"
  proof -
    have "(2::rat) powi (d - 1) = 2 powi (bitlen p - 1) / 2 powi (bitlen q)"
      by (simp add: d_def power_int_diff [symmetric] algebra_simps)
    also have "\<dots> \<le> of_int p / 2 powi (bitlen q)"
      using bitlen_powi(1) [OF p] by (simp add: divide_right_mono)
    also have "\<dots> < of_int p / of_int q"
      using bitlen_powi(2) [OF q] p q by (intro divide_strict_left_mono) simp_all
    finally show ?thesis using x by simp
  qed
  have b: "binade x = (if 2 powi d \<le> \<bar>x\<bar> then d else d - 1)"
    by (simp add: binade_def pq d_def Let_def)
  show "2 powi (binade x) \<le> \<bar>x\<bar>" using lo by (simp add: b)
  show "\<bar>x\<bar> < 2 powi (binade x + 1)" using up by (auto simp add: b)
qed

lemma round_even_error: "\<bar>of_int (round_even y) - y\<bar> \<le> 1 / 2"
proof -
  have "of_int \<lfloor>y\<rfloor> \<le> y" "y < of_int \<lfloor>y\<rfloor> + 1" by linarith+
  then show ?thesis
    by (auto simp add: round_even_def Let_def abs_le_iff)
qed


lemma round32_normal:
  assumes lo: "2 powi (- 126) \<le> \<bar>x\<bar>" and hi: "\<bar>x\<bar> < 2 powi 127"
  shows "\<exists>r. round32 x = Fin r \<and> \<bar>r - x\<bar> \<le> \<bar>x\<bar> / 2 ^ 24"
proof -
  have pos: "0 < \<bar>x\<bar>"
    using lo zero_less_power_int [of "2::rat" "- 126"] by linarith
  then have x0: "x \<noteq> 0" by simp
  define e where "e = binade x"
  have e1: "2 powi e \<le> \<bar>x\<bar>" and e2: "\<bar>x\<bar> < 2 powi (e + 1)"
    using binade_bounds [OF x0] by (simp_all add: e_def)
  have "\<not> e + 1 \<le> - 126"
  proof
    assume "e + 1 \<le> - 126"
    then have "(2::rat) powi (e + 1) \<le> 2 powi (- 126)"
      by (intro power_int_increasing) simp_all
    then show False using lo e2 by linarith
  qed
  then have e_lo: "- 126 \<le> e" by simp
  define q :: rat where "q = 2 powi (e - 23)"
  have q_pos: "0 < q" by (simp add: q_def)
  have q_eq: "q = 2 powi e / 2 ^ 23"
    by (simp add: q_def power_int_diff)
  define r where "r = of_int (round_even (x / q)) * q"
  have "\<bar>r - x\<bar> = \<bar>of_int (round_even (x / q)) - x / q\<bar> * q"
  proof -
    have "r - x = (of_int (round_even (x / q)) - x / q) * q"
      using q_pos by (simp add: r_def algebra_simps)
    then show ?thesis using q_pos by (simp add: abs_mult)
  qed
  also have "\<dots> \<le> (1 / 2) * q"
    using round_even_error [of "x / q"] q_pos by (intro mult_right_mono) simp_all
  also have "\<dots> = 2 powi e / 2 ^ 24"
    by (simp add: q_eq)
  also have "\<dots> \<le> \<bar>x\<bar> / 2 ^ 24"
    using e1 by (simp add: divide_right_mono)
  finally have err: "\<bar>r - x\<bar> \<le> \<bar>x\<bar> / 2 ^ 24" .
  have small: "\<bar>x\<bar> / 2 ^ 24 < \<bar>x\<bar>"
    using pos by (simp add: field_simps)
  have r0: "r \<noteq> 0"
    using err small by auto
  have "\<bar>r\<bar> \<le> \<bar>x\<bar> + \<bar>r - x\<bar>" by linarith
  also have "\<dots> < 2 * \<bar>x\<bar>" using err small by linarith
  also have "\<dots> < 2 * 2 powi 127" using hi by simp
  also have "\<dots> = (2::rat) powi 128" by simp
  finally have no_ovf: "\<not> 2 powi 128 \<le> \<bar>r\<bar>" by simp
  have "round32 x = Fin r"
    using x0 e_lo no_ovf r0
    by (simp add: round32_def Let_def e_def [symmetric] max_absorb1 q_def [symmetric]
        r_def [symmetric])
  then show ?thesis using err by blast
qed


lemma round32_within:
  assumes "1 \<le> x" "x \<le> 2 ^ 24"
  shows "\<exists>r. round32 x = Fin r \<and> \<bar>r - x\<bar> \<le> x / 2 ^ 24"
proof -
  have "(2::rat) powi (- 126) \<le> 2 powi 0"
    by (intro power_int_increasing) simp_all
  then have "2 powi (- 126) \<le> \<bar>x\<bar>" using assms by simp
  moreover have "(2::rat) ^ 24 < 2 ^ 127" by simp
  then have "\<bar>x\<bar> < 2 powi 127" using assms by simp
  ultimately show ?thesis
    using round32_normal [of x] assms by simp
qed

lemma prescale_of_range:
  assumes "40 \<le> c" "c \<le> 1000"
  shows "\<exists>y. fsub (fdiv (Fin 25000000) (fmul (Fin 4096) (Fin c))) (Fin (1 / 2)) = Fin y
           \<and> prescale_of (Fin c) = Some (trunc_toward_zero y)
           \<and> \<bar>y - (25000000 / (4096 * c) - 1 / 2)\<bar> \<le> 1 / 10000
           \<and> 5 \<le> trunc_toward_zero y \<and> trunc_toward_zero y \<le> 152"
proof -
  define m where "m = 4096 * c"
  have m: "163840 \<le> m" "m \<le> 4096000" using assms by (simp_all add: m_def)
  then obtain m' where m': "round32 m = Fin m'" "\<bar>m' - m\<bar> \<le> m / 2 ^ 24"
    using round32_within [of m] by auto
  have "m / 2 ^ 24 \<le> 1" using m by simp
  then have mb: "163839 \<le> m'" "m' \<le> 4096001" using m m'(2) by linarith+
  have s1: "fmul (Fin 4096) (Fin c) = Fin m'"
    using assms m'(1) by (simp add: fmul_def m_def)
  define D where "D = 25000000 / m"
  define d where "d = 25000000 / m'"
  have d: "61 / 10 \<le> d" "d \<le> 1526 / 10"
    using mb by (simp_all add: d_def pos_le_divide_eq pos_divide_le_eq)
  have e1: "\<bar>d - D\<bar> \<le> 1 / 100000"
  proof -
    have "d - D = 25000000 * (m - m') / (m * m')"
      using m mb by (simp add: d_def D_def field_simps)
    then have "\<bar>d - D\<bar> = \<bar>25000000 * (m - m')\<bar> / \<bar>m * m'\<bar>"
      by (simp only: abs_divide)
    also have "\<bar>25000000 * (m - m')\<bar> = 25000000 * \<bar>m' - m\<bar>"
      by (simp add: abs_if)
    also have "\<bar>m * m'\<bar> = m * m'"
      using m mb by simp
    finally have "\<bar>d - D\<bar> = 25000000 * \<bar>m' - m\<bar> / (m * m')" .
    also have "\<dots> \<le> 25000000 * (m / 2 ^ 24) / (m * m')"
      using m mb m'(2) by (intro divide_right_mono mult_left_mono) simp_all
    also have "\<dots> = 25000000 / (2 ^ 24 * m')"
      using m by simp
    also have "\<dots> \<le> 1 / 100000"
      using mb by (simp add: field_simps)
    finally show ?thesis .
  qed
  obtain d' where d': "round32 d = Fin d'" "\<bar>d' - d\<bar> \<le> d / 2 ^ 24"
    using d round32_within [of d] by auto
  have "d / 2 ^ 24 \<le> 1 / 100000" using d by simp
  then have e2: "\<bar>d' - d\<bar> \<le> 1 / 100000" using d'(2) by linarith
  have db: "609 / 100 \<le> d'" "d' \<le> 15261 / 100" using d e2 by linarith+
  have s2: "fdiv (Fin 25000000) (Fin m') = Fin d'"
    using mb d'(1) by (simp add: fdiv_def is_zero_def d_def)
  define u where "u = d' - 1 / 2"
  have u: "559 / 100 \<le> u" "u \<le> 15211 / 100" using db by (simp_all add: u_def)
  then obtain u' where u': "round32 u = Fin u'" "\<bar>u' - u\<bar> \<le> u / 2 ^ 24"
    using round32_within [of u] by auto
  have "u / 2 ^ 24 \<le> 1 / 100000" using u by simp
  then have e3: "\<bar>u' - u\<bar> \<le> 1 / 100000" using u'(2) by linarith
  have ub: "5 \<le> u'" "u' < 153" using u e3 by linarith+
  have s3: "fsub (Fin d') (Fin (1 / 2)) = Fin u'"
    using u u'(1) by (simp add: fsub_def u_def)
  have tr: "trunc_toward_zero u' = \<lfloor>u'\<rfloor>" using ub by (simp add: trunc_toward_zero_def)
  have fl: "5 \<le> \<lfloor>u'\<rfloor>" "\<lfloor>u'\<rfloor> \<le> 152"
    using ub by (simp_all add: le_floor_iff floor_le_iff)
  have r1: "prescale_of (Fin c) = Some (trunc_toward_zero u')"
    using fl by (simp add: prescale_of_def s1 s2 s3 float_to_int_def tr Let_def)
  have r2: "\<bar>u' - (25000000 / (4096 * c) - 1 / 2)\<bar> \<le> 1 / 10000"
  proof -
    have "\<bar>u' - (D - 1 / 2)\<bar> \<le> 1 / 10000"
      using e1 e2 e3 unfolding u_def by linarith
    then show ?thesis by (simp only: D_def m_def)
  qed
  have r3: "5 \<le> trunc_toward_zero u'" "trunc_toward_zero u' \<le> 152"
    using fl tr by simp_all
  have r0: "fsub (fdiv (Fin 25000000) (fmul (Fin 4096) (Fin c))) (Fin (1 / 2)) = Fin u'"
    by (simp only: s1 s2 s3)
  show ?thesis using r0 r1 r2 r3 by blast
qed

lemma cap_freq_cases:
  assumes "f \<noteq> NaN"
  shows "\<exists>c. cap_freq f = Fin c \<and> 40 \<le> c \<and> c \<le> 1000"
  using assms by (cases f) (auto simp add: cap_freq_def fgt_def flt_def)

lemma cap_freq_idem: "cap_freq (cap_freq f) = cap_freq f"
  by (cases f) (auto simp add: cap_freq_def fgt_def flt_def)

lemma prescale_defined:
  assumes "f \<noteq> NaN"
  shows "\<exists>p. prescale_of (cap_freq f) = Some p \<and> 5 \<le> p \<and> p \<le> 152"
proof -
  obtain c where c: "cap_freq f = Fin c" "40 \<le> c" "c \<le> 1000"
    using cap_freq_cases [OF assms] by blast
  show ?thesis using prescale_of_range [OF c(2,3)] c(1) by auto
qed

subsection \<open>Running the frequency-setting function\<close>

lemma pca9685PWMFreq_run:
  assumes "prescale_of (cap_freq f) = Some p"
  shows "\<exists>s'. pca9685PWMFreq fd f s = Some s'
     \<and> trace s' = trace s @
         [ReadByte fd 0,
          WriteByte fd 0 ((uint (regs s fd 0) AND 0x7F) OR 0x10),
          WriteByte fd 0xFE p,
          WriteByte fd 0 ((uint (regs s fd 0) AND 0x7F) AND 0xEF),
          Usleep 1000,
          WriteByte fd 0 (((uint (regs s fd 0) AND 0x7F) AND 0xEF) OR 0x80)]
     \<and> (0 \<le> p \<and> p \<le> 0xFF \<longrightarrow> regs s' fd 0xFE = word_of_int p)"
  using assms
  by (simp add: pca9685PWMFreq_def Let_def split_beta bus_simps usleep_def
      PCA9685_MODE1_def PCA9685_PRESCALE_def valid_reg_def chip_read_plain chip_write_plain
      mode_prescale_plain)

lemma pca9685PWMFreq_byte:
  assumes "prescale_of (cap_freq f) = Some p" "0 \<le> p" "p \<le> 0xFF"
  shows "\<exists>s'. pca9685PWMFreq fd f s = Some s'
     \<and> trace s' = trace s @
         [ReadByte fd 0,
          WriteByte fd 0 ((uint (regs s fd 0) AND 0x7F) OR 0x10),
          WriteByte fd 0xFE p,
          WriteByte fd 0 ((uint (regs s fd 0) AND 0x7F) AND 0xEF),
          Usleep 1000,
          WriteByte fd 0 (((uint (regs s fd 0) AND 0x7F) AND 0xEF) OR 0x80)]
     \<and> uint (regs s' fd PCA9685_PRESCALE) = p"
proof -
  obtain s' where s': "pca9685PWMFreq fd f s = Some s'"
      "trace s' = trace s @
         [ReadByte fd 0,
          WriteByte fd 0 ((uint (regs s fd 0) AND 0x7F) OR 0x10),
          WriteByte fd 0xFE p,
          WriteByte fd 0 ((uint (regs s fd 0) AND 0x7F) AND 0xEF),
          Usleep 1000,
          WriteByte fd 0 (((uint (regs s fd 0) AND 0x7F) AND 0xEF) OR 0x80)]"
      "regs s' fd 0xFE = word_of_int p"
    using pca9685PWMFreq_run [OF assms(1), of fd s] assms(2,3) by blast
  have "uint (regs s' fd PCA9685_PRESCALE) = p"
    using assms(2,3) by (simp add: s'(3) PCA9685_PRESCALE_def uint_word_of_int)
  then show ?thesis using s'(1,2) by blast
qed

subsection \<open>The capped frequency\<close>

text \<open>
  C6. The frequency value used by \<open>setFrequency\<close> is clamped to \<open>[40, 1000]\<close>: for
  every \<open>f \<le> 40\<close> the value used is exactly 40, for every \<open>f \<ge> 1000\<close> exactly 1000,
  and for every \<open>f\<close> with \<open>40 < f < 1000\<close> it is \<open>f\<close> itself. The value used is the one
  line 79 turns into the prescale byte: for \<open>f \<le> 40\<close> the function writes 152, the
  prescale value of 40, to the prescale register, for \<open>f \<ge> 1000\<close> it writes 5, the
  prescale value of 1000, and in between it writes the prescale value of \<open>f\<close>.
\<close>

theorem cap_freq_clamps:
  "(let events = (\<lambda>p. [ReadByte fd 0,
                       WriteByte fd 0 ((uint (regs s fd 0) AND 0x7F) OR 0x10),
                       WriteByte fd 0xFE p,
                       WriteByte fd 0 ((uint (regs s fd 0) AND 0x7F) AND 0xEF),
                       Usleep 1000,
                       WriteByte fd 0 (((uint (regs s fd 0) AND 0x7F) AND 0xEF) OR 0x80)])
    in (fle f (Fin 40) \<longrightarrow>
          cap_freq f = Fin 40 \<and> prescale_of (Fin 40) = Some 152
          \<and> (\<exists>s'. pca9685PWMFreq fd f s = Some s' \<and> trace s' = trace s @ events 152
                 \<and> uint (regs s' fd PCA9685_PRESCALE) = 152))
     \<and> (fge f (Fin 1000) \<longrightarrow>
          cap_freq f = Fin 1000 \<and> prescale_of (Fin 1000) = Some 5
          \<and> (\<exists>s'. pca9685PWMFreq fd f s = Some s' \<and> trace s' = trace s @ events 5
                 \<and> uint (regs s' fd PCA9685_PRESCALE) = 5))
     \<and> (flt (Fin 40) f \<and> flt f (Fin 1000) \<longrightarrow>
          cap_freq f = f
          \<and> (\<exists>p s'. prescale_of f = Some p
                 \<and> pca9685PWMFreq fd f s = Some s' \<and> trace s' = trace s @ events p
                 \<and> uint (regs s' fd PCA9685_PRESCALE) = p))
     \<and> pca9685PWMFreq fd f s = pca9685PWMFreq fd (cap_freq f) s)"
proof -
  have lo: "prescale_of (Fin 40) = Some 152" by code_simp
  have hi: "prescale_of (Fin 1000) = Some 5" by code_simp
  have k1: "fle f (Fin 40) \<longrightarrow>
      cap_freq f = Fin 40 \<and> prescale_of (Fin 40) = Some 152
      \<and> (\<exists>s'. pca9685PWMFreq fd f s = Some s'
         \<and> trace s' = trace s @
             [ReadByte fd 0,
              WriteByte fd 0 ((uint (regs s fd 0) AND 0x7F) OR 0x10),
              WriteByte fd 0xFE 152,
              WriteByte fd 0 ((uint (regs s fd 0) AND 0x7F) AND 0xEF),
              Usleep 1000,
              WriteByte fd 0 (((uint (regs s fd 0) AND 0x7F) AND 0xEF) OR 0x80)]
         \<and> uint (regs s' fd PCA9685_PRESCALE) = 152)"
  proof
    assume a: "fle f (Fin 40)"
    have c: "cap_freq f = Fin 40"
      using a by (cases f) (auto simp add: cap_freq_def fle_def fgt_def flt_def)
    have "prescale_of (cap_freq f) = Some 152" by (simp only: c lo)
    then have "(\<exists>s'. pca9685PWMFreq fd f s = Some s'
         \<and> trace s' = trace s @
             [ReadByte fd 0,
              WriteByte fd 0 ((uint (regs s fd 0) AND 0x7F) OR 0x10),
              WriteByte fd 0xFE 152,
              WriteByte fd 0 ((uint (regs s fd 0) AND 0x7F) AND 0xEF),
              Usleep 1000,
              WriteByte fd 0 (((uint (regs s fd 0) AND 0x7F) AND 0xEF) OR 0x80)]
         \<and> uint (regs s' fd PCA9685_PRESCALE) = 152)"
      by (intro pca9685PWMFreq_byte) simp_all
    then show "cap_freq f = Fin 40 \<and> prescale_of (Fin 40) = Some 152
      \<and> (\<exists>s'. pca9685PWMFreq fd f s = Some s'
         \<and> trace s' = trace s @
             [ReadByte fd 0,
              WriteByte fd 0 ((uint (regs s fd 0) AND 0x7F) OR 0x10),
              WriteByte fd 0xFE 152,
              WriteByte fd 0 ((uint (regs s fd 0) AND 0x7F) AND 0xEF),
              Usleep 1000,
              WriteByte fd 0 (((uint (regs s fd 0) AND 0x7F) AND 0xEF) OR 0x80)]
         \<and> uint (regs s' fd PCA9685_PRESCALE) = 152)"
      using c lo by (intro conjI)
  qed
  have k2: "fge f (Fin 1000) \<longrightarrow>
      cap_freq f = Fin 1000 \<and> prescale_of (Fin 1000) = Some 5
      \<and> (\<exists>s'. pca9685PWMFreq fd f s = Some s'
         \<and> trace s' = trace s @
             [ReadByte fd 0,
              WriteByte fd 0 ((uint (regs s fd 0) AND 0x7F) OR 0x10),
              WriteByte fd 0xFE 5,
              WriteByte fd 0 ((uint (regs s fd 0) AND 0x7F) AND 0xEF),
              Usleep 1000,
              WriteByte fd 0 (((uint (regs s fd 0) AND 0x7F) AND 0xEF) OR 0x80)]
         \<and> uint (regs s' fd PCA9685_PRESCALE) = 5)"
  proof
    assume a: "fge f (Fin 1000)"
    have c: "cap_freq f = Fin 1000"
      using a by (cases f) (auto simp add: cap_freq_def fge_def fle_def fgt_def flt_def)
    have "prescale_of (cap_freq f) = Some 5" by (simp only: c hi)
    then have "(\<exists>s'. pca9685PWMFreq fd f s = Some s'
         \<and> trace s' = trace s @
             [ReadByte fd 0,
              WriteByte fd 0 ((uint (regs s fd 0) AND 0x7F) OR 0x10),
              WriteByte fd 0xFE 5,
              WriteByte fd 0 ((uint (regs s fd 0) AND 0x7F) AND 0xEF),
              Usleep 1000,
              WriteByte fd 0 (((uint (regs s fd 0) AND 0x7F) AND 0xEF) OR 0x80)]
         \<and> uint (regs s' fd PCA9685_PRESCALE) = 5)"
      by (intro pca9685PWMFreq_byte) simp_all
    then show "cap_freq f = Fin 1000 \<and> prescale_of (Fin 1000) = Some 5
      \<and> (\<exists>s'. pca9685PWMFreq fd f s = Some s'
         \<and> trace s' = trace s @
             [ReadByte fd 0,
              WriteByte fd 0 ((uint (regs s fd 0) AND 0x7F) OR 0x10),
              WriteByte fd 0xFE 5,
              WriteByte fd 0 ((uint (regs s fd 0) AND 0x7F) AND 0xEF),
              Usleep 1000,
              WriteByte fd 0 (((uint (regs s fd 0) AND 0x7F) AND 0xEF) OR 0x80)]
         \<and> uint (regs s' fd PCA9685_PRESCALE) = 5)"
      using c hi by (intro conjI)
  qed
  have k3: "flt (Fin 40) f \<and> flt f (Fin 1000) \<longrightarrow>
      cap_freq f = f
      \<and> (\<exists>p s'. prescale_of f = Some p \<and> pca9685PWMFreq fd f s = Some s'
         \<and> trace s' = trace s @
             [ReadByte fd 0,
              WriteByte fd 0 ((uint (regs s fd 0) AND 0x7F) OR 0x10),
              WriteByte fd 0xFE p,
              WriteByte fd 0 ((uint (regs s fd 0) AND 0x7F) AND 0xEF),
              Usleep 1000,
              WriteByte fd 0 (((uint (regs s fd 0) AND 0x7F) AND 0xEF) OR 0x80)]
         \<and> uint (regs s' fd PCA9685_PRESCALE) = p)"
  proof
    assume a: "flt (Fin 40) f \<and> flt f (Fin 1000)"
    have c: "cap_freq f = f"
      using a by (cases f) (auto simp add: cap_freq_def fgt_def flt_def)
    have "f \<noteq> NaN" using a by (auto simp add: flt_def)
    then obtain p where p: "prescale_of (cap_freq f) = Some p" "5 \<le> p" "p \<le> 152"
      using prescale_defined [of f] by blast
    have q: "prescale_of f = Some p" using p(1) by (simp only: c)
    obtain s' where s': "pca9685PWMFreq fd f s = Some s'"
        "trace s' = trace s @
             [ReadByte fd 0,
              WriteByte fd 0 ((uint (regs s fd 0) AND 0x7F) OR 0x10),
              WriteByte fd 0xFE p,
              WriteByte fd 0 ((uint (regs s fd 0) AND 0x7F) AND 0xEF),
              Usleep 1000,
              WriteByte fd 0 (((uint (regs s fd 0) AND 0x7F) AND 0xEF) OR 0x80)]"
        "uint (regs s' fd PCA9685_PRESCALE) = p"
      using pca9685PWMFreq_byte [OF p(1), of fd s] p(2,3) by auto
    have "(\<exists>p s'. prescale_of f = Some p \<and> pca9685PWMFreq fd f s = Some s'
         \<and> trace s' = trace s @
             [ReadByte fd 0,
              WriteByte fd 0 ((uint (regs s fd 0) AND 0x7F) OR 0x10),
              WriteByte fd 0xFE p,
              WriteByte fd 0 ((uint (regs s fd 0) AND 0x7F) AND 0xEF),
              Usleep 1000,
              WriteByte fd 0 (((uint (regs s fd 0) AND 0x7F) AND 0xEF) OR 0x80)]
         \<and> uint (regs s' fd PCA9685_PRESCALE) = p)"
      using q s' by (intro exI conjI)
    then show "cap_freq f = f
      \<and> (\<exists>p s'. prescale_of f = Some p \<and> pca9685PWMFreq fd f s = Some s'
         \<and> trace s' = trace s @
             [ReadByte fd 0,
              WriteByte fd 0 ((uint (regs s fd 0) AND 0x7F) OR 0x10),
              WriteByte fd 0xFE p,
              WriteByte fd 0 ((uint (regs s fd 0) AND 0x7F) AND 0xEF),
              Usleep 1000,
              WriteByte fd 0 (((uint (regs s fd 0) AND 0x7F) AND 0xEF) OR 0x80)]
         \<and> uint (regs s' fd PCA9685_PRESCALE) = p)"
      using c by (intro conjI)
  qed
  have k4: "pca9685PWMFreq fd f s = pca9685PWMFreq fd (cap_freq f) s"
    by (simp add: pca9685PWMFreq_def cap_freq_idem)
  show ?thesis
    unfolding Let_def by (rule conjI [OF k1 conjI [OF k2 conjI [OF k3 k4]]])
qed

theorem cap_freq_clamps_witness:
  "fle (Fin 20) (Fin 40) \<and> cap_freq (Fin 20) = Fin 40
   \<and> (\<exists>s'. pca9685PWMFreq 3 (Fin 20) blank = Some s'
          \<and> trace s' = [ReadByte 3 0, WriteByte 3 0 0x10, WriteByte 3 0xFE 152,
                          WriteByte 3 0 0, Usleep 1000, WriteByte 3 0 0x80]
          \<and> uint (regs s' 3 PCA9685_PRESCALE) = 152)
   \<and> fge PInf (Fin 1000) \<and> cap_freq PInf = Fin 1000
   \<and> (\<exists>s'. pca9685PWMFreq 3 PInf blank = Some s'
          \<and> trace s' = [ReadByte 3 0, WriteByte 3 0 0x10, WriteByte 3 0xFE 5,
                          WriteByte 3 0 0, Usleep 1000, WriteByte 3 0 0x80]
          \<and> uint (regs s' 3 PCA9685_PRESCALE) = 5)
   \<and> flt (Fin 40) (Fin 50) \<and> flt (Fin 50) (Fin 1000) \<and> cap_freq (Fin 50) = Fin 50
   \<and> (\<exists>s'. pca9685PWMFreq 3 (Fin 50) blank = Some s'
          \<and> trace s' = [ReadByte 3 0, WriteByte 3 0 0x10, WriteByte 3 0xFE 121,
                          WriteByte 3 0 0, Usleep 1000, WriteByte 3 0 0x80]
          \<and> uint (regs s' 3 PCA9685_PRESCALE) = 121)"
proof -
  have p: "prescale_of (Fin 50) = Some 121" by code_simp
  have b: "uint (regs blank 3 0) = 0" by (simp add: blank_def)
  have f1: "fle (Fin 20) (Fin 40)" "fge PInf (Fin 1000)"
    "flt (Fin 40) (Fin 50) \<and> flt (Fin 50) (Fin 1000)"
    by (simp_all add: fle_def fge_def flt_def)
  have w1: "cap_freq (Fin 20) = Fin 40
   \<and> (\<exists>s'. pca9685PWMFreq 3 (Fin 20) blank = Some s'
          \<and> trace s' = [ReadByte 3 0, WriteByte 3 0 0x10, WriteByte 3 0xFE 152,
                          WriteByte 3 0 0, Usleep 1000, WriteByte 3 0 0x80]
          \<and> uint (regs s' 3 PCA9685_PRESCALE) = 152)"
    using cap_freq_clamps [of 3 blank "Fin 20", unfolded Let_def, THEN conjunct1] f1(1)
    by (simp add: b blank_def)
  have w2: "cap_freq PInf = Fin 1000
   \<and> (\<exists>s'. pca9685PWMFreq 3 PInf blank = Some s'
          \<and> trace s' = [ReadByte 3 0, WriteByte 3 0 0x10, WriteByte 3 0xFE 5,
                          WriteByte 3 0 0, Usleep 1000, WriteByte 3 0 0x80]
          \<and> uint (regs s' 3 PCA9685_PRESCALE) = 5)"
    using cap_freq_clamps [of 3 blank PInf, unfolded Let_def, THEN conjunct2, THEN conjunct1]
      f1(2)
    by (simp add: b blank_def)
  have w3: "cap_freq (Fin 50) = Fin 50
   \<and> (\<exists>s'. pca9685PWMFreq 3 (Fin 50) blank = Some s'
          \<and> trace s' = [ReadByte 3 0, WriteByte 3 0 0x10, WriteByte 3 0xFE 121,
                          WriteByte 3 0 0, Usleep 1000, WriteByte 3 0 0x80]
          \<and> uint (regs s' 3 PCA9685_PRESCALE) = 121)"
    using cap_freq_clamps [of 3 blank "Fin 50", unfolded Let_def, THEN conjunct2,
        THEN conjunct2, THEN conjunct1] f1(3) p
    by (simp add: b blank_def)
  show ?thesis using f1 w1 w2 w3 by (intro conjI) simp_all
qed

subsection \<open>The prescale value\<close>

text \<open>
  The claim C1 as stated fails at the example it gives: at the clamped frequency 50
  the quotient is \<open>25000000 / 204800 = 122.07\<close>, so the value written is 121, not 120.
  Read with exact arithmetic the formula fails too: \<open>5882353 / 8192\<close> is a binary32
  value, the exact formula truncates to 7 there, and the code, which rounds the
  quotient to single precision, writes 8.
\<close>

theorem prescale_50_counterexample:
  "cap_freq (Fin 50) = Fin 50
   \<and> trunc_toward_zero (25000000 / (4096 * 50) - 1 / 2) = 121
   \<and> prescale_of (Fin 50) = Some 121
   \<and> prescale_of (Fin 50) \<noteq> Some 120
   \<and> map_option trace (pca9685PWMFreq 3 (Fin 50) blank) =
       Some [ReadByte 3 0, WriteByte 3 0 0x10, WriteByte 3 0xFE 121, WriteByte 3 0 0,
             Usleep 1000, WriteByte 3 0 0x80]
   \<and> round32 (5882353 / 8192) = Fin (5882353 / 8192)
   \<and> cap_freq (Fin (5882353 / 8192)) = Fin (5882353 / 8192)
   \<and> trunc_toward_zero (25000000 / (4096 * (5882353 / 8192)) - 1 / 2) = 7
   \<and> prescale_of (Fin (5882353 / 8192)) = Some 8"
  by code_simp

text \<open>
  C1, as amended. For every input frequency \<open>f\<close> that is not a NaN, \<open>setFrequency\<close>
  writes to the prescale register the truncation toward zero of
  \<open>25000000 / (4096 * clamp(f)) - 0.5\<close> evaluated in single precision, each of the
  three operations rounded to binary32; that single-precision value lies within
  \<open>0.0001\<close> of the exact value of the expression, and the register then holds the
  truncated value. At the clamped frequency 50 the prescale value is 121.
\<close>

theorem prescale_written:
  assumes "f \<noteq> NaN"
  shows "(\<exists>c y s'. cap_freq f = Fin c
       \<and> fsub (fdiv (Fin 25000000) (fmul (Fin 4096) (Fin c))) (Fin (1 / 2)) = Fin y
       \<and> \<bar>y - (25000000 / (4096 * c) - 1 / 2)\<bar> \<le> 1 / 10000
       \<and> pca9685PWMFreq fd f s = Some s'
       \<and> WriteByte fd PCA9685_PRESCALE (trunc_toward_zero y) \<in> set (trace s')
       \<and> uint (regs s' fd PCA9685_PRESCALE) = trunc_toward_zero y)
     \<and> prescale_of (cap_freq (Fin 50)) = Some 121"
proof -
  have fifty: "prescale_of (cap_freq (Fin 50)) = Some 121"
    by code_simp
  obtain c where c: "cap_freq f = Fin c" "40 \<le> c" "c \<le> 1000"
    using cap_freq_cases [OF assms] by blast
  obtain y where y: "fsub (fdiv (Fin 25000000) (fmul (Fin 4096) (Fin c))) (Fin (1 / 2)) = Fin y"
      "prescale_of (Fin c) = Some (trunc_toward_zero y)"
      "\<bar>y - (25000000 / (4096 * c) - 1 / 2)\<bar> \<le> 1 / 10000"
      "5 \<le> trunc_toward_zero y" "trunc_toward_zero y \<le> 152"
    using prescale_of_range [OF c(2,3)] by blast
  have p: "prescale_of (cap_freq f) = Some (trunc_toward_zero y)"
    using y(2) c(1) by simp
  obtain s' where s': "pca9685PWMFreq fd f s = Some s'"
      "trace s' = trace s @
         [ReadByte fd 0,
          WriteByte fd 0 ((uint (regs s fd 0) AND 0x7F) OR 0x10),
          WriteByte fd 0xFE (trunc_toward_zero y),
          WriteByte fd 0 ((uint (regs s fd 0) AND 0x7F) AND 0xEF),
          Usleep 1000,
          WriteByte fd 0 (((uint (regs s fd 0) AND 0x7F) AND 0xEF) OR 0x80)]"
      "0 \<le> trunc_toward_zero y \<and> trunc_toward_zero y \<le> 0xFF
         \<longrightarrow> regs s' fd 0xFE = word_of_int (trunc_toward_zero y)"
    using pca9685PWMFreq_run [OF p, of fd s] by blast
  have w: "WriteByte fd PCA9685_PRESCALE (trunc_toward_zero y) \<in> set (trace s')"
    by (simp add: s'(2) PCA9685_PRESCALE_def)
  have "regs s' fd 0xFE = word_of_int (trunc_toward_zero y)"
    using s'(3) y(4,5) by simp
  then have r: "uint (regs s' fd PCA9685_PRESCALE) = trunc_toward_zero y"
    using y(4,5) by (simp add: PCA9685_PRESCALE_def uint_word_of_int)
  show ?thesis using c(1) y(1,3) s'(1) w r fifty by blast
qed

theorem prescale_written_witness:
  "Fin 50 \<noteq> NaN
   \<and> (\<exists>s'. pca9685PWMFreq 3 (Fin 50) blank = Some s'
          \<and> WriteByte 3 PCA9685_PRESCALE 121 \<in> set (trace s')
          \<and> uint (regs s' 3 PCA9685_PRESCALE) = 121)"
proof -
  have v: "fsub (fdiv (Fin 25000000) (fmul (Fin 4096) (Fin 50))) (Fin (1 / 2)) = Fin (15561 / 128)"
    by code_simp
  have t: "trunc_toward_zero (15561 / 128) = 121"
    by code_simp
  have c: "cap_freq (Fin 50) = Fin 50"
    by code_simp
  obtain c' y s' where h: "cap_freq (Fin 50) = Fin c'"
      "fsub (fdiv (Fin 25000000) (fmul (Fin 4096) (Fin c'))) (Fin (1 / 2)) = Fin y"
      "pca9685PWMFreq 3 (Fin 50) blank = Some s'"
      "WriteByte 3 PCA9685_PRESCALE (trunc_toward_zero y) \<in> set (trace s')"
      "uint (regs s' 3 PCA9685_PRESCALE) = trunc_toward_zero y"
    using prescale_written [of "Fin 50" 3 blank] by auto
  have "c' = 50" using h(1) c by simp
  then have "Fin y = Fin (15561 / 128)" using h(2) v by simp
  then have "y = 15561 / 128" by (simp only: float32.inject)
  then have "trunc_toward_zero y = 121" by (simp only: t)
  then show ?thesis using h(3,4,5) by simp
qed

subsection \<open>The frequency-setting sequence\<close>

text \<open>
  C8. \<open>setFrequency\<close> performs exactly this sequence of transactions, in this order:
  read the mode register and clear bit 7 of the value to obtain \<open>settings\<close>; write
  \<open>settings\<close> with bit 4 set; write the computed prescale value to register \<open>0xFE\<close>;
  write \<open>settings\<close> with bit 4 cleared; wait 1000 microseconds; write the wake value
  with bit 7 set. (For a NaN the cast to \<open>int\<close> has no defined result, so the frequency
  is taken to be a number.)
\<close>

theorem pca9685PWMFreq_sequence:
  assumes "f \<noteq> NaN"
  shows "\<exists>p s'. prescale_of (cap_freq f) = Some p \<and> pca9685PWMFreq fd f s = Some s'
     \<and> (let settings = uint (regs s fd 0) AND 0x7F in
        trace s' = trace s @
         [ReadByte fd 0,
          WriteByte fd 0 (settings OR 0x10),
          WriteByte fd 0xFE p,
          WriteByte fd 0 (settings AND 0xEF),
          Usleep 1000,
          WriteByte fd 0 ((settings AND 0xEF) OR 0x80)])"
proof -
  obtain p where p: "prescale_of (cap_freq f) = Some p"
    using prescale_defined [OF assms] by blast
  show ?thesis
    using pca9685PWMFreq_run [OF p, of fd s] p by (auto simp add: Let_def)
qed

theorem pca9685PWMFreq_sequence_witness:
  "Fin 50 \<noteq> NaN
   \<and> (\<exists>s'. pca9685PWMFreq 3 (Fin 50) (preset 3 0 0x91) = Some s'
        \<and> trace s' = [ReadByte 3 0, WriteByte 3 0 0x11, WriteByte 3 0xFE 121,
                        WriteByte 3 0 0x01, Usleep 1000, WriteByte 3 0 0x81])"
proof -
  have p: "prescale_of (cap_freq (Fin 50)) = Some 121"
    by code_simp
  have b: "(0x91 :: int) AND 0x7F = 0x11" "(0x11 :: int) OR 0x10 = 0x11"
    "(0x11 :: int) AND 0xEF = 0x01" "(0x01 :: int) OR 0x80 = 0x81"
    by simp_all
  show ?thesis
    using pca9685PWMFreq_sequence [of "Fin 50" 3 "preset 3 0 0x91"] p b
    by (auto simp add: preset_def Let_def)
qed

subsection \<open>Setup\<close>

lemma autoInc_byte:
  "0 \<le> (uint (b :: 8 word) AND 0x7F) OR 0x20" "(uint b AND 0x7F) OR 0x20 \<le> 0xFF"
  "(word_of_int ((uint b AND 0x7F) OR 0x20) :: 8 word) = (b AND 0x7F) OR 0x20"
proof -
  have eq: "(uint b AND 0x7F) OR 0x20 = uint ((b AND 0x7F) OR 0x20)"
    by (simp add: uint_or uint_and)
  have "uint ((b AND 0x7F) OR 0x20) < 2 ^ 8"
    using uint_bounded [of "(b AND 0x7F) OR 0x20"] by simp
  then show "0 \<le> (uint b AND 0x7F) OR 0x20" "(uint b AND 0x7F) OR 0x20 \<le> 0xFF"
    unfolding eq by simp_all
  show "(word_of_int ((uint b AND 0x7F) OR 0x20) :: 8 word) = (b AND 0x7F) OR 0x20"
    unfolding eq by simp
qed

lemma bit_autoInc:
  "bit (((b :: 8 word) AND 0x7F) OR 0x20) n = (n = 5 \<or> (bit b n \<and> n \<noteq> 7))"
proof -
  have "(0x7F :: 8 word) = NOT (2 ^ 7)" "(0x20 :: 8 word) = 2 ^ 5" by simp_all
  then show ?thesis
    by (simp only: bit_or_iff bit_and_iff bit_not_iff bit_exp_iff) (auto dest: bit_imp_le_length)
qed

lemma pca9685Setup_unfold:
  "pca9685Setup h f s =
     (if fgt f (Fin 0)
      then (case pca9685PWMFreq h f (after_mode_write h s) of
              None \<Rightarrow> None | Some s' \<Rightarrow> Some (1, s'))
      else Some (1, after_mode_write h s))"
  by (simp add: pca9685Setup_def after_mode_write_def Let_def split_beta i2cReadByteData_def
      i2cWriteByteData_def PCA9685_MODE1_def valid_reg_def autoInc_byte chip_read_plain
      chip_write_plain mode_prescale_plain)

lemma fgt_not_NaN: "fgt f (Fin 0) \<Longrightarrow> f \<noteq> NaN"
  by (auto simp add: fgt_def flt_def)

text \<open>
  The claim C2 as stated fails when the restart bit is set in the mode register: with
  \<open>0x80\<close> read, setting bit 5 in the value read gives \<open>0xA0\<close>, while \<open>pca9685Setup\<close>
  writes \<open>0x20\<close>, because it masks the value with \<open>0x7F\<close> first.
\<close>

theorem pca9685Setup_restart_counterexample:
  "uint (regs (preset 3 0 0x80) 3 0) = 0x80
   \<and> (0x80 :: int) OR 0x20 = 0xA0
   \<and> map_option (trace \<circ> snd) (pca9685Setup 3 (Fin 0) (preset 3 0 0x80)) =
       Some [ReadByte 3 0, WriteByte 3 0 0x20]
   \<and> regs (snd (the (pca9685Setup 3 (Fin 0) (preset 3 0 0x80)))) 3 0 = 0x20"
  by code_simp

text \<open>
  C2, as amended. \<open>setup\<close> reads the mode register, clears the restart bit (bit 7) and
  sets the auto-increment bit (bit 5) in the value read, writes that value back to the
  mode register, and then calls the frequency-setting operation if and only if the
  given frequency is \<open>> 0\<close>; otherwise it performs no further transaction.
\<close>

theorem pca9685Setup_effect:
  "(fgt f (Fin 0) \<longrightarrow>
      (\<exists>s'. pca9685PWMFreq h f (after_mode_write h s) = Some s'
            \<and> pca9685Setup h f s = Some (1, s')))
   \<and> (\<not> fgt f (Fin 0) \<longrightarrow> pca9685Setup h f s = Some (1, after_mode_write h s))
   \<and> trace (after_mode_write h s) =
       trace s @ [ReadByte h 0, WriteByte h 0 ((uint (regs s h 0) AND 0x7F) OR 0x20)]
   \<and> (\<forall>n. bit (regs (after_mode_write h s) h 0) n
             = (n = 5 \<or> (bit (regs s h 0) n \<and> n \<noteq> 7)))"
proof -
  have call: "(fgt f (Fin 0) \<longrightarrow>
      (\<exists>s'. pca9685PWMFreq h f (after_mode_write h s) = Some s'
            \<and> pca9685Setup h f s = Some (1, s')))
   \<and> (\<not> fgt f (Fin 0) \<longrightarrow> pca9685Setup h f s = Some (1, after_mode_write h s))"
  proof (cases "fgt f (Fin 0)")
    case True
    then obtain p where p: "prescale_of (cap_freq f) = Some p"
      using prescale_defined [OF fgt_not_NaN] by blast
    obtain s' where "pca9685PWMFreq h f (after_mode_write h s) = Some s'"
      using pca9685PWMFreq_run [OF p] by blast
    then show ?thesis using True by (simp add: pca9685Setup_unfold)
  next
    case False
    then show ?thesis by (simp add: pca9685Setup_unfold)
  qed
  have "trace (after_mode_write h s) =
       trace s @ [ReadByte h 0, WriteByte h 0 ((uint (regs s h 0) AND 0x7F) OR 0x20)]"
    by (simp add: after_mode_write_def)
  moreover have "\<forall>n. bit (regs (after_mode_write h s) h 0) n
             = (n = 5 \<or> (bit (regs s h 0) n \<and> n \<noteq> 7))"
    by (simp add: after_mode_write_def bit_autoInc)
  ultimately show ?thesis using call by blast
qed

theorem pca9685Setup_effect_witness:
  "fgt (Fin 50) (Fin 0) \<and> \<not> fgt NaN (Fin 0) \<and> \<not> fgt (Fin 0) (Fin 0)
   \<and> (\<exists>s'. pca9685PWMFreq 3 (Fin 50) (after_mode_write 3 blank) = Some s'
            \<and> pca9685Setup 3 (Fin 50) blank = Some (1, s'))
   \<and> pca9685Setup 3 (Fin 0) blank = Some (1, after_mode_write 3 blank)
   \<and> pca9685Setup 3 NaN blank = Some (1, after_mode_write 3 blank)"
  using pca9685Setup_effect [of "Fin 50" 3 blank] pca9685Setup_effect [of "Fin 0" 3 blank]
    pca9685Setup_effect [of NaN 3 blank]
  by (simp add: fgt_def flt_def)

text \<open>
  C10. \<open>setup\<close> always returns the constant 1: for every handle, every frequency (zero,
  negative and NaN included) and every content of the mode register.
\<close>

theorem pca9685Setup_returns_1: "\<exists>s'. pca9685Setup h f s = Some (1, s')"
proof (cases "fgt f (Fin 0)")
  case True
  then obtain p where p: "prescale_of (cap_freq f) = Some p"
    using prescale_defined [OF fgt_not_NaN] by blast
  obtain s' where "pca9685PWMFreq h f (after_mode_write h s) = Some s'"
    using pca9685PWMFreq_run [OF p] by blast
  then show ?thesis using True by (simp add: pca9685Setup_unfold)
next
  case False
  then show ?thesis by (simp add: pca9685Setup_unfold)
qed

end
